theory Spec2Isabelle
  imports Main "HOL-Library.Word" "HOL-Library.AList"
begin

section \<open>The remote (S3) ancient store of core/rawdb/freezer_remote_s3.go\<close>

text \<open>
  The Go type \<open>freezerRemoteS3\<close> keeps a write cache (\<open>cache\<close>, \<open>cacheS\<close>), a
  read-through cache (\<open>retrieved\<close>) and the frozen counter in memory, and talks to one S3
  bucket. Every method is modelled as a function from the struct to a result and the
  updated struct. A Go map is an association list read with \<open>map_of\<close> and written with
  \<open>AList.update\<close> and \<open>AList.delete\<close>; the code only looks keys up, deletes them and
  tests \<open>len(m) == 0\<close>, which is \<open>m = []\<close>.
\<close>

subsection \<open>Values, errors and panics\<close>

type_synonym uint64 = "64 word"
type_synonym bytes = "8 word list"

datatype error =
    errOutOfBounds
  | errNotSupported
  | AwsError string
  | RlpError
  | JsonError
  | SyntaxError
  | RangeError
  | OtherError string

datatype panic =
    IndexOutOfRange
  | DivideByZero
  | NilDereference
  | CacheNotAtMod uint64 uint64
  | UnknownKind string
  | Bad

datatype 'a result = Ok 'a | Err error | Panic panic

text \<open>
  \<open>types.Header\<close>, \<open>types.Body\<close> and \<open>types.ReceiptForStorage\<close> are declared outside
  the file. Of a header the store reads only \<open>Number\<close>; the other components are opaque.
\<close>

record header =
  Number :: nat
  Extra :: bytes

type_synonym body = bytes
type_synonym receipt = bytes

record AncientObjectS3 =
  Hash :: bytes
  Header :: "header option"
  Body :: "body option"
  Receipts :: "receipt list"
  Difficulty :: "nat option"

text \<open>
  Modelled from the spec: the RecordCodec (package \<open>rlp\<close>) is an external collaborator
  that decodes and encodes one component; it is a parameter of every function that calls
  it. A decoder returns \<open>None\<close> where \<open>rlp.DecodeBytes\<close> returns an error.
\<close>

record rlp =
  DecodeHeader :: "bytes \<Rightarrow> header option"
  DecodeBody :: "bytes \<Rightarrow> body option"
  DecodeReceipts :: "bytes \<Rightarrow> receipt list option"
  DecodeDifficulty :: "bytes \<Rightarrow> nat option"
  EncodeHeader :: "header option \<Rightarrow> bytes"
  EncodeBody :: "body option \<Rightarrow> bytes"
  EncodeReceipts :: "receipt list \<Rightarrow> bytes"
  EncodeDifficulty :: "nat option \<Rightarrow> bytes"

text \<open>
  Modelled from the spec: \<open>common.BytesToHash\<close> (declared outside the file) yields the 32
  byte identity hash: a longer input is cropped from the left, a shorter one is padded
  with zero bytes on the left.
\<close>

definition BytesToHash :: "bytes \<Rightarrow> bytes" where
  "BytesToHash b =
     (let c = (if 32 < length b then drop (length b - 32) b else b)
      in replicate (32 - length c) 0 @ c)"

definition zeroHash :: bytes where
  "zeroHash = replicate 32 0"

definition zeroObject :: AncientObjectS3 where
  "zeroObject = \<lparr>Hash = zeroHash, Header = None, Body = None, Receipts = [], Difficulty = None\<rparr>"

definition NewAncientObjectS3 ::
  "rlp \<Rightarrow> bytes \<Rightarrow> bytes \<Rightarrow> bytes \<Rightarrow> bytes \<Rightarrow> bytes \<Rightarrow> error + AncientObjectS3" where
  "NewAncientObjectS3 c hashB headerB bodyB receiptsB difficultyB =
     (case DecodeHeader c headerB of None \<Rightarrow> Inl RlpError
      | Some h \<Rightarrow>
     (case DecodeBody c bodyB of None \<Rightarrow> Inl RlpError
      | Some b \<Rightarrow>
     (case DecodeReceipts c receiptsB of None \<Rightarrow> Inl RlpError
      | Some rs \<Rightarrow>
     (case DecodeDifficulty c difficultyB of None \<Rightarrow> Inl RlpError
      | Some d \<Rightarrow>
        Inr \<lparr>Hash = BytesToHash hashB, Header = Some h, Body = Some b,
             Receipts = rs, Difficulty = Some d\<rparr>))))"

text \<open>
  Modelled from the spec: the five component kinds (identity hash, header, body, receipt
  list, cumulative difficulty). The constants are declared in schema.go, outside the file;
  the names are the table names of the freezer.
\<close>

definition freezerHashTable :: string where "freezerHashTable = ''hashes''"
definition freezerHeaderTable :: string where "freezerHeaderTable = ''headers''"
definition freezerBodiesTable :: string where "freezerBodiesTable = ''bodies''"
definition freezerReceiptTable :: string where "freezerReceiptTable = ''receipts''"
definition freezerDifficultyTable :: string where "freezerDifficultyTable = ''diffs''"

definition RLPBytesForKind :: "rlp \<Rightarrow> AncientObjectS3 \<Rightarrow> string \<Rightarrow> panic + bytes" where
  "RLPBytesForKind c o' kind =
     (if kind = freezerHashTable then Inr (Hash o')
      else if kind = freezerHeaderTable then Inr (EncodeHeader c (Header o'))
      else if kind = freezerBodiesTable then Inr (EncodeBody c (Body o'))
      else if kind = freezerReceiptTable then Inr (EncodeReceipts c (Receipts o'))
      else if kind = freezerDifficultyTable then Inr (EncodeDifficulty c (Difficulty o'))
      else Inl (UnknownKind kind))"

text \<open>\<open>v.Header.Number.Uint64()\<close>: a nil header is a nil dereference.\<close>

definition numberOf :: "AncientObjectS3 \<Rightarrow> uint64 option" where
  "numberOf v = (case Header v of None \<Rightarrow> None | Some h \<Rightarrow> Some (of_nat (Number h)))"

subsection \<open>Decimal text: \<open>strconv.FormatUint\<close>, \<open>strconv.ParseUint\<close>, \<open>%09d\<close>\<close>

definition digitChar :: "nat \<Rightarrow> char" where
  "digitChar d = ''0123456789'' ! d"

fun decimal :: "nat \<Rightarrow> string" where
  "decimal n = (if n < 10 then [digitChar n] else decimal (n div 10) @ [digitChar (n mod 10)])"

declare decimal.simps [simp del]

definition FormatUint :: "uint64 \<Rightarrow> string" where
  "FormatUint n = decimal (unat n)"

definition isDigit :: "char \<Rightarrow> bool" where
  "isDigit ch = (48 \<le> (of_char ch :: nat) \<and> (of_char ch :: nat) \<le> 57)"

definition maxUint64 :: int where
  "maxUint64 = 2 ^ 64 - 1"

text \<open>
  The loop of \<open>ParseUint(s, 10, 64)\<close>: a character that is no digit is a syntax error
  with value 0; an overflow is a range error with the largest value.
\<close>

fun parseDigits :: "string \<Rightarrow> int \<Rightarrow> uint64 \<times> error option" where
  "parseDigits [] n = (word_of_int n, None)"
| "parseDigits (ch # cs) n =
     (if \<not> isDigit ch then (0, Some SyntaxError)
      else if maxUint64 div 10 + 1 \<le> n then (word_of_int maxUint64, Some RangeError)
      else if maxUint64 < n * 10 + (of_char ch - 48) then (word_of_int maxUint64, Some RangeError)
      else parseDigits cs (n * 10 + (of_char ch - 48)))"

definition ParseUint :: "string \<Rightarrow> uint64 \<times> error option" where
  "ParseUint s = (if s = [] then (0, Some SyntaxError) else parseDigits s 0)"

definition awsKeyBlock :: "uint64 \<Rightarrow> string" where
  "awsKeyBlock number =
     (let d = decimal (unat number)
      in ''blocks/'' @ replicate (9 - length d) CHR ''0'' @ d @ ''.json'')"

subsection \<open>The bucket\<close>

text \<open>
  Modelled from the spec: the ObjectStore capability (the AWS SDK) with get, put and the
  batched range delete. A bucket holds objects by key; a body is either the JSON of a
  group, which \<open>json.Unmarshal\<close> decodes into the records it was marshalled from, or any
  other text. \<open>faults\<close> says which calls the service fails and with what error, and
  \<open>calls\<close> records every call made, in order.
\<close>

datatype s3body = Json "AncientObjectS3 list" | Raw string

datatype s3call = CreateBucket | GetObject string | PutObject string | DeleteObjects string

record s3 =
  objects :: "(string \<times> s3body) list"
  faults :: "s3call \<Rightarrow> error option"
  calls :: "s3call list"

definition ErrCodeNoSuchKey :: string where
  "ErrCodeNoSuchKey = ''NoSuchKey''"

definition s3get :: "string \<Rightarrow> s3 \<Rightarrow> (error + s3body) \<times> s3" where
  "s3get key r =
     ((case faults r (GetObject key) of
         Some e \<Rightarrow> Inl e
       | None \<Rightarrow>
          (case map_of (objects r) key of
             None \<Rightarrow> Inl (AwsError ErrCodeNoSuchKey)
           | Some b \<Rightarrow> Inr b)),
      r\<lparr>calls := calls r @ [GetObject key]\<rparr>)"

definition s3put :: "string \<Rightarrow> s3body \<Rightarrow> s3 \<Rightarrow> error option \<times> s3" where
  "s3put key b r =
     (case faults r (PutObject key) of
        Some e \<Rightarrow> (Some e, r\<lparr>calls := calls r @ [PutObject key]\<rparr>)
      | None \<Rightarrow>
         (None, r\<lparr>objects := AList.update key b (objects r),
                   calls := calls r @ [PutObject key]\<rparr>))"

text \<open>
  Modelled from the spec: the batch upload of the ObjectStore (\<open>UploadWithIterator\<close>). It
  puts every object of the batch in order, goes on after a failed put, and reports one
  batch error when any put failed.
\<close>

fun s3uploadAll :: "(string \<times> s3body) list \<Rightarrow> bool \<Rightarrow> s3 \<Rightarrow> error option \<times> s3" where
  "s3uploadAll [] failed r =
     ((if failed then Some (AwsError ''BatchedUploadIncomplete'') else None), r)"
| "s3uploadAll ((key, b) # us) failed r =
     (case s3put key b r of
        (None, r') \<Rightarrow> s3uploadAll us failed r'
      | (Some e, r') \<Rightarrow> s3uploadAll us True r')"

text \<open>Keys are compared as S3 lists them: byte by byte.\<close>

fun keyLe :: "string \<Rightarrow> string \<Rightarrow> bool" where
  "keyLe [] ys = True"
| "keyLe (x # xs) [] = False"
| "keyLe (x # xs) (y # ys) =
     ((of_char x :: nat) < of_char y \<or> (x = y \<and> keyLe xs ys))"

definition isGroupKey :: "string \<Rightarrow> bool" where
  "isGroupKey key = (take 7 key = ''blocks/'')"

text \<open>
  Modelled from the spec: the batched range delete of the ObjectStore, driven by a listing
  that starts at a marker key. Every group object whose key is at or after the marker is
  removed.
\<close>

definition s3deleteFrom :: "string \<Rightarrow> s3 \<Rightarrow> error option \<times> s3" where
  "s3deleteFrom marker r =
     (case faults r (DeleteObjects marker) of
        Some e \<Rightarrow> (Some e, r\<lparr>calls := calls r @ [DeleteObjects marker]\<rparr>)
      | None \<Rightarrow>
         (None, r\<lparr>objects := filter (\<lambda>(k, b). \<not> (isGroupKey k \<and> keyLe marker k)) (objects r),
                   calls := calls r @ [DeleteObjects marker]\<rparr>))"

definition unmarshal :: "s3body \<Rightarrow> error + AncientObjectS3 list" where
  "unmarshal b = (case b of Json rs \<Rightarrow> Inr rs | Raw t \<Rightarrow> Inl JsonError)"

text \<open>
  The error handling after each download: an AWS error with code \<open>NoSuchKey\<close> becomes
  \<open>errOutOfBounds\<close>, any other error is returned as it is.
\<close>

definition downloadError :: "error \<Rightarrow> error" where
  "downloadError e = (if e = AwsError ErrCodeNoSuchKey then errOutOfBounds else e)"

subsection \<open>The store\<close>

text \<open>
  \<open>frozen\<close> is a pointer in the Go struct: it is nil until the constructor has read the
  marker, and a load, store or add through nil is a nil dereference.
\<close>

record freezerRemoteS3 =
  remote :: s3
  frozen :: "uint64 option"
  objectGroupSize :: uint64
  retrieved :: "(uint64 \<times> AncientObjectS3) list"
  cache :: "(uint64 \<times> AncientObjectS3) list"
  cacheS :: "uint64 list"

definition objectKeyForN :: "freezerRemoteS3 \<Rightarrow> uint64 \<Rightarrow> string option" where
  "objectKeyForN f n =
     (if objectGroupSize f = 0 then None
      else Some (awsKeyBlock ((n div objectGroupSize f) * objectGroupSize f)))"

text \<open>
  The check written out six times in the file:
  \<^verbatim>\<open>if f.cacheS[0] % f.objectGroupSize != 0 { panic("cache does not begin at mod...") }\<close>
  It yields the panic it raises, if any: the index expression on an empty slice, the
  remainder by a zero group size, or the explicit panic.
\<close>

definition cacheBeginsAtMod :: "freezerRemoteS3 \<Rightarrow> panic option" where
  "cacheBeginsAtMod f =
     (case cacheS f of
        [] \<Rightarrow> Some IndexOutOfRange
      | n # ns \<Rightarrow>
          if objectGroupSize f = 0 then Some DivideByZero
          else if n mod objectGroupSize f \<noteq> 0
            then Some (CacheNotAtMod n (n mod objectGroupSize f))
          else None)"

definition setIndexMarker :: "uint64 \<Rightarrow> freezerRemoteS3 \<Rightarrow> error option \<times> freezerRemoteS3" where
  "setIndexMarker number f =
     (case s3put ''index-marker'' (Raw (FormatUint number)) (remote f) of
        (e, r) \<Rightarrow> (e, f\<lparr>remote := r\<rparr>))"

subsection \<open>Startup: \<open>Ancients\<close>, \<open>initCache\<close>, \<open>newFreezerRemoteS3\<close>\<close>

text \<open>\<open>Ancients\<close> returns its number together with its error, as the Go function does.\<close>

definition Ancients :: "freezerRemoteS3 \<Rightarrow> (uint64 \<times> error option) \<times> freezerRemoteS3" where
  "Ancients f =
     (case frozen f of
        Some n \<Rightarrow> ((n, None), f)
      | None \<Rightarrow>
         (case s3get ''index-marker'' (remote f) of
            (Inl e, r) \<Rightarrow>
              (if e = AwsError ErrCodeNoSuchKey then ((0, None), f\<lparr>remote := r\<rparr>)
               else ((0, Some e), f\<lparr>remote := r\<rparr>))
          | (Inr (Raw t), r) \<Rightarrow> (ParseUint t, f\<lparr>remote := r\<rparr>)
          | (Inr (Json rs), r) \<Rightarrow> ((0, Some SyntaxError), f\<lparr>remote := r\<rparr>)))"

fun initCache_loop :: "AncientObjectS3 list \<Rightarrow> freezerRemoteS3 \<Rightarrow> panic option \<times> freezerRemoteS3" where
  "initCache_loop [] f = (None, f)"
| "initCache_loop (v # vs) f =
     (case numberOf v of
        None \<Rightarrow> (Some NilDereference, f)
      | Some n \<Rightarrow>
          initCache_loop vs (f\<lparr>cacheS := cacheS f @ [n], cache := AList.update n v (cache f)\<rparr>))"

definition initCache :: "uint64 \<Rightarrow> freezerRemoteS3 \<Rightarrow> unit result \<times> freezerRemoteS3" where
  "initCache n f =
     (case objectKeyForN f n of
        None \<Rightarrow> (Panic DivideByZero, f)
      | Some key \<Rightarrow>
         (case s3get key (remote f) of
            (Inl e, r) \<Rightarrow> (Err (downloadError e), f\<lparr>remote := r\<rparr>)
          | (Inr b, r) \<Rightarrow>
             (case unmarshal b of
                Inl e \<Rightarrow> (Err e, f\<lparr>remote := r\<rparr>)
              | Inr target \<Rightarrow>
                 (case initCache_loop target (f\<lparr>remote := r\<rparr>) of
                    (Some p, f') \<Rightarrow> (Panic p, f')
                  | (None, f') \<Rightarrow>
                     (case cacheBeginsAtMod f' of
                        Some p \<Rightarrow> (Panic p, f')
                      | None \<Rightarrow> (Ok (), f'))))))"

text \<open>
  The constructor, from the value of \<open>GETH_FREEZER_S3_GROUP_OBJECTS\<close> (empty when unset)
  and the bucket. It returns the Go pair: the error, and the struct or nil. Creating the
  AWS session and waiting for the created bucket are taken to succeed.
\<close>

definition initializeBucket :: "freezerRemoteS3 \<Rightarrow> error option \<times> freezerRemoteS3" where
  "initializeBucket f =
     (let f' = f\<lparr>remote := (remote f)\<lparr>calls := calls (remote f) @ [CreateBucket]\<rparr>\<rparr>
      in case faults (remote f) CreateBucket of
           None \<Rightarrow> (None, f')
         | Some e \<Rightarrow>
            (if e = AwsError ''BucketAlreadyExists'' \<or> e = AwsError ''BucketAlreadyOwnedByYou''
             then (None, f') else (Some e, f')))"

definition newFreezerRemoteS3 :: "string \<Rightarrow> s3 \<Rightarrow> unit result \<times> freezerRemoteS3 option" where
  "newFreezerRemoteS3 env r =
     (case (if env \<noteq> [] then ParseUint env else (32, None)) of
        (i, Some e) \<Rightarrow> (Err e, None)
      | (freezerGroups, None) \<Rightarrow>
         (let f = \<lparr>remote = r, frozen = None, objectGroupSize = freezerGroups,
                   retrieved = [], cache = [], cacheS = []\<rparr>
          in case initializeBucket f of
               (Some e, f1) \<Rightarrow> (Err e, Some f1)
             | (None, f1) \<Rightarrow>
                (case Ancients f1 of
                   ((n, e), f2) \<Rightarrow>
                     (let f3 = f2\<lparr>frozen := Some n\<rparr>
                      in if 0 < n
                         then (case initCache n f3 of
                                 (Ok u, f4) \<Rightarrow> (Ok (), Some f4)
                               | (res, f4) \<Rightarrow> (res, Some f4))
                         else (Ok (), Some f3)))))"

subsection \<open>Reading: \<open>Ancient\<close>\<close>

fun Ancient_loop ::
  "AncientObjectS3 list \<Rightarrow> uint64 \<Rightarrow> (uint64 \<times> AncientObjectS3) list \<times> AncientObjectS3 \<Rightarrow>
   panic option \<times> (uint64 \<times> AncientObjectS3) list \<times> AncientObjectS3" where
  "Ancient_loop [] number (rt, o') = (None, rt, o')"
| "Ancient_loop (v # vs) number (rt, o') =
     (case numberOf v of
        None \<Rightarrow> (Some NilDereference, rt, o')
      | Some n \<Rightarrow>
          Ancient_loop vs number (AList.update n v rt, if n = number then v else o'))"

definition returnBytes :: "panic + bytes \<Rightarrow> freezerRemoteS3 \<Rightarrow> bytes option result \<times> freezerRemoteS3" where
  "returnBytes b f = (case b of Inl p \<Rightarrow> (Panic p, f) | Inr bs \<Rightarrow> (Ok (Some bs), f))"

definition Ancient ::
  "rlp \<Rightarrow> string \<Rightarrow> uint64 \<Rightarrow> freezerRemoteS3 \<Rightarrow> bytes option result \<times> freezerRemoteS3" where
  "Ancient c kind number f =
     (case frozen f of
        None \<Rightarrow> (Panic NilDereference, f)
      | Some fz \<Rightarrow>
         if fz \<le> number then (Ok None, f)
         else
          (case map_of (cache f) number of
             Some v \<Rightarrow> returnBytes (RLPBytesForKind c v kind) f
           | None \<Rightarrow>
          (case map_of (retrieved f) number of
             Some v \<Rightarrow> returnBytes (RLPBytesForKind c v kind) f
           | None \<Rightarrow>
          (case objectKeyForN f number of
             None \<Rightarrow> (Panic DivideByZero, f)
           | Some key \<Rightarrow>
              (case s3get key (remote f) of
                 (Inl e, r) \<Rightarrow> (Err (downloadError e), f\<lparr>remote := r\<rparr>)
               | (Inr b, r) \<Rightarrow>
                  (case unmarshal b of
                     Inl e \<Rightarrow> (Err e, f\<lparr>remote := r\<rparr>)
                   | Inr target \<Rightarrow>
                      (case Ancient_loop target number ([], zeroObject) of
                         (Some p, rt, o') \<Rightarrow> (Panic p, f\<lparr>remote := r, retrieved := rt\<rparr>)
                       | (None, rt, o') \<Rightarrow>
                          (if Hash o' = zeroHash
                           then (Panic Bad, f\<lparr>remote := r, retrieved := rt\<rparr>)
                           else returnBytes (RLPBytesForKind c o' kind)
                                  (f\<lparr>remote := r, retrieved := rt\<rparr>)))))))))"

subsection \<open>Appending: \<open>AppendAncient\<close>\<close>

definition AppendAncient ::
  "rlp \<Rightarrow> uint64 \<Rightarrow> bytes \<Rightarrow> bytes \<Rightarrow> bytes \<Rightarrow> bytes \<Rightarrow> bytes \<Rightarrow> freezerRemoteS3 \<Rightarrow>
   unit result \<times> freezerRemoteS3" where
  "AppendAncient c number hash hdr bdy receipts td f =
     (case NewAncientObjectS3 c hash hdr bdy receipts td of
        Inl e \<Rightarrow> (Err e, f)
      | Inr o' \<Rightarrow>
         (let f1 = f\<lparr>cache := AList.update number o' (cache f), cacheS := cacheS f @ [number]\<rparr>
          in case cacheBeginsAtMod f1 of
               Some p \<Rightarrow> (Panic p, f1)
             | None \<Rightarrow>
                (case frozen f1 of
                   None \<Rightarrow> (Panic NilDereference, f1)
                 | Some fz \<Rightarrow> (Ok (), f1\<lparr>frozen := Some (fz + 1)\<rparr>))))"

subsection \<open>Flushing: \<open>pushCache\<close>, \<open>Sync\<close>\<close>

fun sliceIndexOf :: "uint64 list \<Rightarrow> uint64 \<Rightarrow> int" where
  "sliceIndexOf [] n = -1"
| "sliceIndexOf (s # sl) n = (if s = n then 0 else if sliceIndexOf sl n < 0 then -1 else sliceIndexOf sl n + 1)"

text \<open>
  The first loop of \<open>pushCache\<close> over \<open>f.cacheS\<close>, carrying \<open>set\<close>, \<open>uploads\<close> and
  \<open>remainders\<close>. It runs past the alignment check only, so the group size is not zero.
  \<open>i == len(f.cacheS)-1\<close> is the last round: no number is left.
\<close>

text \<open>\<open>v := f.cache[n]\<close>: a Go map yields the zero value for a key it does not hold.\<close>

definition cacheLookup :: "freezerRemoteS3 \<Rightarrow> uint64 \<Rightarrow> AncientObjectS3" where
  "cacheLookup f n = (case map_of (cache f) n of None \<Rightarrow> zeroObject | Some v \<Rightarrow> v)"

fun pushCache_loop ::
  "freezerRemoteS3 \<Rightarrow> uint64 list \<Rightarrow>
   AncientObjectS3 list \<times> (string \<times> s3body) list \<times> uint64 list \<Rightarrow>
   AncientObjectS3 list \<times> (string \<times> s3body) list \<times> uint64 list" where
  "pushCache_loop f [] acc = acc"
| "pushCache_loop f (n # ns) (set', uploads, remainders) =
     (let v = cacheLookup f n;
          set1 = set' @ [v];
          remainders1 = remainders @ [n];
          endGroup = ((n + 1) mod objectGroupSize f = 0)
      in pushCache_loop f ns
           (if endGroup \<or> ns = [] then [] else set1,
            if endGroup \<or> ns = []
              then uploads @ [(awsKeyBlock ((n div objectGroupSize f) * objectGroupSize f),
                               Json set1)]
              else uploads,
            if endGroup then [] else remainders1))"

text \<open>The second loop: every cached number that is not among the remainders is deleted.\<close>

fun pushCache_splice ::
  "uint64 list \<Rightarrow> uint64 list \<Rightarrow> (uint64 \<times> AncientObjectS3) list \<Rightarrow>
   (uint64 \<times> AncientObjectS3) list" where
  "pushCache_splice [] remainders c = c"
| "pushCache_splice (n # ns) remainders c =
     pushCache_splice ns remainders
       (if sliceIndexOf remainders n < 0 then AList.delete n c else c)"

definition pushCache :: "freezerRemoteS3 \<Rightarrow> unit result \<times> freezerRemoteS3" where
  "pushCache f =
     (if cacheS f = [] then (Ok (), f)
      else
       (case cacheBeginsAtMod f of
          Some p \<Rightarrow> (Panic p, f)
        | None \<Rightarrow>
           (case pushCache_loop f (cacheS f) ([], [], []) of
              (set', uploads, remainders) \<Rightarrow>
                (case s3uploadAll uploads False (remote f) of
                   (Some e, r) \<Rightarrow> (Err e, f\<lparr>remote := r\<rparr>)
                 | (None, r) \<Rightarrow>
                    (let f1 = f\<lparr>remote := r,
                                 cache := pushCache_splice (cacheS f) remainders (cache f),
                                 cacheS := remainders\<rparr>
                     in case cacheBeginsAtMod f1 of
                          Some p \<Rightarrow> (Panic p, f1)
                        | None \<Rightarrow> (Ok (), f1\<lparr>retrieved := []\<rparr>))))))"

definition Sync :: "freezerRemoteS3 \<Rightarrow> unit result \<times> freezerRemoteS3" where
  "Sync f =
     (if cache f = [] then (Ok (), f)
      else
       (case pushCache f of
          (Ok u, f1) \<Rightarrow>
            (case frozen f1 of
               None \<Rightarrow> (Panic NilDereference, f1)
             | Some fz \<Rightarrow>
                (case setIndexMarker fz f1 of
                   (Some e, f2) \<Rightarrow> (Err e, f2)
                 | (None, f2) \<Rightarrow> (Ok (), f2)))
        | (res, f1) \<Rightarrow> (res, f1)))"

subsection \<open>Truncating: \<open>TruncateAncients\<close>\<close>

text \<open>
  The loop over \<open>f.cacheS\<close> that deletes the cached records at or above \<open>items\<close> and
  remembers in \<open>cachedAt\<close> the last index holding \<open>items\<close> itself.
\<close>

fun Truncate_loop ::
  "uint64 list \<Rightarrow> nat \<Rightarrow> uint64 \<Rightarrow> (uint64 \<times> AncientObjectS3) list \<times> int \<Rightarrow>
   (uint64 \<times> AncientObjectS3) list \<times> int" where
  "Truncate_loop [] i items (c, cachedAt) = (c, cachedAt)"
| "Truncate_loop (v # vs) i items (c, cachedAt) =
     Truncate_loop vs (Suc i) items
       (if items \<le> v then AList.delete v c else c, if v = items then int i else cachedAt)"

text \<open>The loop that keeps the records below \<open>items\<close> of the downloaded group.\<close>

fun Truncate_keep ::
  "AncientObjectS3 list \<Rightarrow> uint64 \<Rightarrow> freezerRemoteS3 \<Rightarrow> panic option \<times> freezerRemoteS3" where
  "Truncate_keep [] items f = (None, f)"
| "Truncate_keep (t # ts) items f =
     (case numberOf t of
        None \<Rightarrow> (Some NilDereference, f)
      | Some n \<Rightarrow>
          Truncate_keep ts items
            (if n < items
             then f\<lparr>cache := AList.update n t (cache f), cacheS := cacheS f @ [n]\<rparr>
             else f))"

text \<open>
  "First, download the latest group object into a temporary cache": the branch on
  \<open>items % f.objectGroupSize\<close>. \<open>Ok\<close> means the function goes on.
\<close>

definition Truncate_download :: "uint64 \<Rightarrow> freezerRemoteS3 \<Rightarrow> unit result \<times> freezerRemoteS3" where
  "Truncate_download items f =
     (case objectKeyForN f items of
        None \<Rightarrow> (Panic DivideByZero, f)
      | Some key \<Rightarrow>
         if items mod objectGroupSize f \<noteq> 0 then
           (case s3get key (remote f) of
              (Inl e, r) \<Rightarrow> (Err (downloadError e), f\<lparr>remote := r\<rparr>)
            | (Inr b, r) \<Rightarrow>
               (case unmarshal b of
                  Inl e \<Rightarrow> (Err e, f\<lparr>remote := r\<rparr>)
                | Inr target \<Rightarrow>
                   (case Truncate_keep target items (f\<lparr>remote := r, cache := [], cacheS := []\<rparr>) of
                      (Some p, f') \<Rightarrow> (Panic p, f')
                    | (None, f') \<Rightarrow> (Ok (), f'\<lparr>cacheS := sort (cacheS f')\<rparr>))))
         else (Ok (), f\<lparr>cache := [], cacheS := []\<rparr>))"

definition Truncate_remote :: "uint64 \<Rightarrow> freezerRemoteS3 \<Rightarrow> unit result \<times> freezerRemoteS3" where
  "Truncate_remote items f =
     (case Truncate_download items f of
        (Ok u, f1) \<Rightarrow>
          (case objectKeyForN f1 items of
             None \<Rightarrow> (Panic DivideByZero, f1)
           | Some key \<Rightarrow>
              (case s3deleteFrom key (remote f1) of
                 (Some e, r) \<Rightarrow> (Err e, f1\<lparr>remote := r\<rparr>)
               | (None, r) \<Rightarrow>
                  (case (if cache f1 \<noteq> [] then pushCache (f1\<lparr>remote := r\<rparr>)
                         else (Ok (), f1\<lparr>remote := r\<rparr>)) of
                     (Ok u, f2) \<Rightarrow>
                       (case setIndexMarker items f2 of
                          (Some e, f3) \<Rightarrow> (Err e, f3)
                        | (None, f3) \<Rightarrow> (Ok (), f3\<lparr>frozen := Some items\<rparr>))
                   | (res, f2) \<Rightarrow> (res, f2))))
      | (res, f1) \<Rightarrow> (res, f1))"

definition TruncateAncients :: "uint64 \<Rightarrow> freezerRemoteS3 \<Rightarrow> unit result \<times> freezerRemoteS3" where
  "TruncateAncients items f =
     (case cacheBeginsAtMod f of
        Some p \<Rightarrow> (Panic p, f)
      | None \<Rightarrow>
         (case Truncate_loop (cacheS f) 0 items (cache f, - 1) of
            (c, cachedAt) \<Rightarrow>
              (let f1 = f\<lparr>cache := c\<rparr>
               in if 0 \<le> cachedAt then
                    (case setIndexMarker items (f1\<lparr>cacheS := take (nat cachedAt) (cacheS f1)\<rparr>) of
                       (Some e, f2) \<Rightarrow> (Err e, f2)
                     | (None, f2) \<Rightarrow>
                        (case frozen f2 of
                           None \<Rightarrow> (Panic NilDereference, f2)
                         | Some fz \<Rightarrow> (Ok (), f2\<lparr>frozen := Some items\<rparr>)))
                  else
                    (case cacheBeginsAtMod f1 of
                       Some p \<Rightarrow> (Panic p, f1)
                     | None \<Rightarrow>
                        (case frozen f1 of
                           None \<Rightarrow> (Panic NilDereference, f1)
                         | Some n \<Rightarrow> Truncate_remote items f1)))))"

subsection \<open>Concrete stores\<close>

text \<open>
  Modelled from the spec: a RecordCodec instance, so that the store can be run on concrete
  records. A header is its number in one byte followed by the rest; a body is its own
  encoding.
\<close>

definition testCodec :: rlp where
  "testCodec =
     \<lparr>DecodeHeader =
        (\<lambda>bs. case bs of [] \<Rightarrow> None | b # rest \<Rightarrow> Some \<lparr>Number = unat b, Extra = rest\<rparr>),
      DecodeBody = (\<lambda>bs. Some bs),
      DecodeReceipts = (\<lambda>bs. Some [bs]),
      DecodeDifficulty = (\<lambda>bs. Some (length bs)),
      EncodeHeader = (\<lambda>h. case h of None \<Rightarrow> [] | Some h \<Rightarrow> of_nat (Number h) # Extra h),
      EncodeBody = (\<lambda>b. case b of None \<Rightarrow> [] | Some bs \<Rightarrow> bs),
      EncodeReceipts = concat,
      EncodeDifficulty = (\<lambda>d. case d of None \<Rightarrow> [] | Some n \<Rightarrow> replicate n 0)\<rparr>"

definition emptyBucket :: s3 where
  "emptyBucket = \<lparr>objects = [], faults = (\<lambda>c. None), calls = []\<rparr>"

text \<open>The store over an empty bucket, with group size \<open>g\<close> and nothing frozen.\<close>

definition emptyStore :: "uint64 \<Rightarrow> freezerRemoteS3" where
  "emptyStore g = \<lparr>remote = emptyBucket, frozen = Some 0, objectGroupSize = g,
                   retrieved = [], cache = [], cacheS = []\<rparr>"

text \<open>
  \<open>testAppend i\<close> appends under number \<open>i\<close> the record whose header carries the number
  \<open>i\<close>, whose hash is the byte \<open>i + 1\<close> and whose body is the byte 7;
  \<open>testObject i\<close> is the object that \<open>NewAncientObjectS3\<close> builds from these blobs.
\<close>

definition testAppend :: "uint64 \<Rightarrow> freezerRemoteS3 \<Rightarrow> unit result \<times> freezerRemoteS3" where
  "testAppend i f = AppendAncient testCodec i [ucast i + 1] [ucast i] [7] [] [] f"

definition testObject :: "uint64 \<Rightarrow> AncientObjectS3" where
  "testObject i =
     \<lparr>Hash = replicate 31 0 @ [ucast i + 1],
      Header = Some \<lparr>Number = unat (ucast i :: 8 word), Extra = []\<rparr>,
      Body = Some [7], Receipts = [[]], Difficulty = Some 0\<rparr>"

fun appendAll :: "uint64 list \<Rightarrow> freezerRemoteS3 \<Rightarrow> unit result \<times> freezerRemoteS3" where
  "appendAll [] f = (Ok (), f)"
| "appendAll (i # is) f =
     (case testAppend i f of
        (Ok u, f') \<Rightarrow> appendAll is f'
      | (res, f') \<Rightarrow> (res, f'))"

text \<open>Four appended records with group size 4: the write cache holds one whole group.\<close>

definition wholeGroupStore :: freezerRemoteS3 where
  "wholeGroupStore = snd (appendAll [0, 1, 2, 3] (emptyStore 4))"

text \<open>
  A bucket with the marker at 4 and the group of the records 0 to 3, which is the group
  of the last frozen record 3.
\<close>

definition tailBucket :: s3 where
  "tailBucket =
     \<lparr>objects = [(''blocks/000000000.json'', Json (map testObject [0, 1, 2, 3])),
                 (''index-marker'', Raw ''4'')],
      faults = (\<lambda>c. None), calls = []\<rparr>"

text \<open>
  Six records appended and synced, after which every object of the bucket is lost; and the
  same store over a service that fails every call.
\<close>

definition lostGroupStore :: freezerRemoteS3 where
  "lostGroupStore =
     (let f = snd (Sync (snd (appendAll [0, 1, 2, 3, 4, 5] (emptyStore 4))))
      in f\<lparr>remote := (remote f)\<lparr>objects := []\<rparr>\<rparr>)"

definition failingStore :: freezerRemoteS3 where
  "failingStore =
     lostGroupStore\<lparr>remote := (remote lostGroupStore)\<lparr>faults := (\<lambda>c. Some (OtherError ''timeout''))\<rparr>\<rparr>"

text \<open>
  The records 0 to 10 appended with group size 4; that store truncated to 5; the same
  store synced first and then truncated to 5.
\<close>

definition elevenStore :: freezerRemoteS3 where
  "elevenStore = snd (appendAll [0, 1, 2, 3, 4, 5, 6, 7, 8, 9, 10] (emptyStore 4))"

definition truncatedStore :: freezerRemoteS3 where
  "truncatedStore = snd (TruncateAncients 5 elevenStore)"

definition syncedStore :: freezerRemoteS3 where
  "syncedStore = snd (Sync elevenStore)"

definition syncedTruncatedStore :: freezerRemoteS3 where
  "syncedTruncatedStore = snd (TruncateAncients 5 syncedStore)"

definition allKinds :: "string list" where
  "allKinds = [freezerHashTable, freezerHeaderTable, freezerBodiesTable, freezerReceiptTable,
               freezerDifficultyTable]"

text \<open>One record appended with group size 4.\<close>

definition oneStore :: freezerRemoteS3 where
  "oneStore = snd (appendAll [0] (emptyStore 4))"


section \<open>Properties\<close>

subsection \<open>Reading at or above the frozen count\<close>

text \<open>
  C8. For every kind and every number at or above the frozen count, \<open>Ancient\<close> returns
  nil with no error. The store is returned as it was, the log of remote calls included:
  nothing is fetched.
\<close>

theorem Ancient_not_frozen_is_absent:
  "frozen f = Some fz \<Longrightarrow> fz \<le> number \<Longrightarrow> Ancient c kind number f = (Ok None, f)"
  by (simp add: Ancient_def)

theorem Ancient_not_frozen_is_absent_witness:
  "frozen (snd (appendAll [0, 1, 2] (emptyStore 4))) = Some 3 \<and> (3 :: uint64) \<le> 7 \<and>
   Ancient testCodec ''bodies'' 7 (snd (appendAll [0, 1, 2] (emptyStore 4))) =
     (Ok None, snd (appendAll [0, 1, 2] (emptyStore 4)))"
proof -
  have fz: "frozen (snd (appendAll [0, 1, 2] (emptyStore 4))) = Some 3"
    by code_simp
  have le: "(3 :: uint64) \<le> 7"
    by simp
  from Ancient_not_frozen_is_absent [OF fz le] fz le show ?thesis
    by simp
qed

subsection \<open>Truncating with an empty write cache\<close>

text \<open>
  C10. For every target, \<open>TruncateAncients\<close> on a store whose cached-number sequence is
  empty evaluates \<open>f.cacheS[0]\<close> first: the call panics with an index out of range, and
  nothing of the store has changed.
\<close>

theorem TruncateAncients_empty_cache_panics:
  "cacheS f = [] \<Longrightarrow> TruncateAncients items f = (Panic IndexOutOfRange, f)"
  by (simp add: TruncateAncients_def cacheBeginsAtMod_def)

theorem TruncateAncients_empty_cache_panics_witness:
  "cacheS (emptyStore 4) = [] \<and>
   TruncateAncients 5 (emptyStore 4) = (Panic IndexOutOfRange, emptyStore 4)"
proof -
  have e: "cacheS (emptyStore 4) = []"
    by (simp add: emptyStore_def)
  from TruncateAncients_empty_cache_panics [OF e] e show ?thesis
    by simp
qed

subsection \<open>Appending out of order\<close>

text \<open>
  C1. The specification: an append whose number is not the frozen count fails and leaves the
  store unchanged. \<open>AppendAncient\<close> never compares \<open>number\<close> with \<open>f.frozen\<close>: on the
  empty store, whose frozen count is 0, appending number 4 succeeds, caches the record
  and advances the frozen count to 1.
\<close>

theorem AppendAncient_accepts_out_of_order:
  "frozen (emptyStore 4) = Some 0 \<and>
   testAppend 4 (emptyStore 4) =
     (Ok (), (emptyStore 4)\<lparr>frozen := Some 1, cache := [(4, testObject 4)], cacheS := [4]\<rparr>)"
  by (simp add: emptyStore_def testAppend_def AppendAncient_def NewAncientObjectS3_def
      testCodec_def cacheBeginsAtMod_def testObject_def BytesToHash_def)

subsection \<open>Startup at a group boundary\<close>

text \<open>
  C2. The specification: startup downloads the group of the record \<open>FrozenCount - 1\<close> and succeeds
  when the marker and that group are present, also when the frozen count is a multiple of
  the group size. \<open>newFreezerRemoteS3\<close> calls \<open>initCache(n)\<close> with the frozen count
  itself: over \<open>tailBucket\<close> (marker 4, group size 4, group of record 3 present) it asks for
  the group of record 4 and fails with \<open>errOutOfBounds\<close>. The bucket is the one the store
  itself leaves after nine appends, a sync and a truncation to 4.
\<close>

theorem newFreezerRemoteS3_fails_at_group_boundary:
  "map_of (objects tailBucket) ''index-marker'' = Some (Raw ''4'') \<and>
   map_of (objects tailBucket) (awsKeyBlock ((3 div 4) * 4)) = Some (Json (map testObject [0, 1, 2, 3])) \<and>
   fst (newFreezerRemoteS3 ''4'' tailBucket) = Err errOutOfBounds \<and>
   map_option (\<lambda>f. (frozen f, objectGroupSize f, cacheS f, calls (remote f)))
       (snd (newFreezerRemoteS3 ''4'' tailBucket)) =
     Some (Some 4, 4, [], [CreateBucket, GetObject ''index-marker'', GetObject ''blocks/000000004.json'']) \<and>
   fst (TruncateAncients 4 (snd (Sync (snd (appendAll [0, 1, 2, 3, 4, 5, 6, 7, 8] (emptyStore 4)))))) = Ok () \<and>
   objects (remote (snd (TruncateAncients 4
       (snd (Sync (snd (appendAll [0, 1, 2, 3, 4, 5, 6, 7, 8] (emptyStore 4)))))))) =
     objects tailBucket"
  by code_simp

subsection \<open>Syncing a cache of whole groups\<close>

lemma pushCache_loop_ends_group:
  "ns \<noteq> [] \<Longrightarrow> (last ns + 1) mod objectGroupSize f = 0 \<Longrightarrow>
   snd (snd (pushCache_loop f ns acc)) = []"
proof (induction ns arbitrary: acc)
  case Nil
  then show ?case by simp
next
  case (Cons n ns)
  obtain a b c where acc: "acc = (a, b, c)" by (cases acc) auto
  show ?case
  proof (cases "ns = []")
    case True
    with Cons.prems show ?thesis by (simp add: acc Let_def)
  next
    case False
    with Cons.prems have "(last ns + 1) mod objectGroupSize f = 0" by simp
    from Cons.IH [OF False this] show ?thesis by (simp add: acc Let_def)
  qed
qed

text \<open>
  C3. Let the write cache be non-empty, begin at a multiple of the group size and end
  with a number \<open>n\<close> such that \<open>(n + 1) % groupSize = 0\<close>, and let the batch upload of
  \<open>pushCache\<close> succeed. Then no remainder is retained, \<open>f.cacheS\<close> becomes empty, and the
  check \<open>f.cacheS[0]\<close> that follows panics with an index out of range: \<open>Sync\<close> does not
  return.
\<close>

theorem Sync_whole_groups_panics:
  assumes "cache f \<noteq> []" and "cacheS f \<noteq> []" and "cacheBeginsAtMod f = None"
    and "(last (cacheS f) + 1) mod objectGroupSize f = 0"
    and "fst (s3uploadAll (fst (snd (pushCache_loop f (cacheS f) ([], [], [])))) False (remote f)) = None"
  shows "fst (Sync f) = Panic IndexOutOfRange \<and> cacheS (snd (Sync f)) = []"
proof -
  obtain s u rm where l: "pushCache_loop f (cacheS f) ([], [], []) = (s, u, rm)"
    by (cases "pushCache_loop f (cacheS f) ([], [], [])") auto
  from pushCache_loop_ends_group [OF assms(2) assms(4), of "([], [], [])"] l have rm: "rm = []"
    by simp
  obtain e r where up: "s3uploadAll u False (remote f) = (e, r)"
    by (cases "s3uploadAll u False (remote f)") auto
  with assms(5) l have e: "e = None" by simp
  have "pushCache f = (Panic IndexOutOfRange,
      f\<lparr>remote := r, cache := pushCache_splice (cacheS f) [] (cache f), cacheS := []\<rparr>)"
    using assms(2,3) l rm up e by (simp add: pushCache_def cacheBeginsAtMod_def)
  with assms(1) show ?thesis by (simp add: Sync_def)
qed

theorem Sync_whole_groups_panics_witness:
  "cache wholeGroupStore \<noteq> [] \<and> cacheS wholeGroupStore = [0, 1, 2, 3] \<and>
   cacheBeginsAtMod wholeGroupStore = None \<and>
   (last (cacheS wholeGroupStore) + 1) mod objectGroupSize wholeGroupStore = 0 \<and>
   fst (s3uploadAll (fst (snd (pushCache_loop wholeGroupStore (cacheS wholeGroupStore) ([], [], []))))
          False (remote wholeGroupStore)) = None \<and>
   fst (Sync wholeGroupStore) = Panic IndexOutOfRange \<and> cacheS (snd (Sync wholeGroupStore)) = []"
proof -
  have h1: "cache wholeGroupStore \<noteq> []" by code_simp
  have h2: "cacheS wholeGroupStore = [0, 1, 2, 3]" by code_simp
  then have h2': "cacheS wholeGroupStore \<noteq> []" by simp
  have h3: "cacheBeginsAtMod wholeGroupStore = None" by code_simp
  have h4: "(last (cacheS wholeGroupStore) + 1) mod objectGroupSize wholeGroupStore = 0"
    by code_simp
  have h5: "fst (s3uploadAll (fst (snd (pushCache_loop wholeGroupStore (cacheS wholeGroupStore) ([], [], []))))
          False (remote wholeGroupStore)) = None"
    by code_simp
  from Sync_whole_groups_panics [OF h1 h2' h3 h4 h5] h1 h2 h3 h4 h5 show ?thesis
    by blast
qed

subsection \<open>Reading a record whose group is gone\<close>

text \<open>
  C7. Let \<open>number\<close> be below the frozen count and in neither the
  write cache nor the read-through cache, so that \<open>Ancient\<close> asks the bucket for the
  group object \<open>key\<close> that owns it. If the object does not exist (the service answers
  \<open>NoSuchKey\<close>) the read fails with \<open>errOutOfBounds\<close>; if the service fails the call
  with any other error, that error is returned as it is. This holds for every kind.
\<close>

theorem Ancient_missing_group_is_out_of_bounds:
  assumes "frozen f = Some fz" and "number < fz"
    and "map_of (cache f) number = None" and "map_of (retrieved f) number = None"
    and "objectKeyForN f number = Some key"
  shows "(faults (remote f) (GetObject key) = None \<and> map_of (objects (remote f)) key = None \<longrightarrow>
           Ancient c kind number f =
             (Err errOutOfBounds,
              f\<lparr>remote := (remote f)\<lparr>calls := calls (remote f) @ [GetObject key]\<rparr>\<rparr>))
       \<and> (\<forall>e. faults (remote f) (GetObject key) = Some e \<and> e \<noteq> AwsError ErrCodeNoSuchKey \<longrightarrow>
           Ancient c kind number f =
             (Err e, f\<lparr>remote := (remote f)\<lparr>calls := calls (remote f) @ [GetObject key]\<rparr>\<rparr>))"
  using assms by (auto simp: Ancient_def s3get_def downloadError_def)

theorem Ancient_missing_group_is_out_of_bounds_witness:
  "frozen lostGroupStore = Some 6 \<and> (2 :: uint64) < 6 \<and>
   map_of (cache lostGroupStore) 2 = None \<and> map_of (retrieved lostGroupStore) 2 = None \<and>
   objectKeyForN lostGroupStore 2 = Some ''blocks/000000000.json'' \<and>
   faults (remote lostGroupStore) (GetObject ''blocks/000000000.json'') = None \<and>
   map_of (objects (remote lostGroupStore)) ''blocks/000000000.json'' = None \<and>
   fst (Ancient testCodec ''hashes'' 2 lostGroupStore) = Err errOutOfBounds \<and>
   frozen failingStore = Some 6 \<and>
   map_of (cache failingStore) 2 = None \<and> map_of (retrieved failingStore) 2 = None \<and>
   objectKeyForN failingStore 2 = Some ''blocks/000000000.json'' \<and>
   faults (remote failingStore) (GetObject ''blocks/000000000.json'') = Some (OtherError ''timeout'') \<and>
   OtherError ''timeout'' \<noteq> AwsError ErrCodeNoSuchKey \<and>
   fst (Ancient testCodec ''hashes'' 2 failingStore) = Err (OtherError ''timeout'')"
proof -
  have a1: "frozen lostGroupStore = Some 6" by code_simp
  have a2: "(2 :: uint64) < 6" by simp
  have a3: "map_of (cache lostGroupStore) 2 = None" by code_simp
  have a4: "map_of (retrieved lostGroupStore) 2 = None" by code_simp
  have a5: "objectKeyForN lostGroupStore 2 = Some ''blocks/000000000.json''" by code_simp
  have a6: "faults (remote lostGroupStore) (GetObject ''blocks/000000000.json'') = None"
    by code_simp
  have a7: "map_of (objects (remote lostGroupStore)) ''blocks/000000000.json'' = None"
    by code_simp
  have b1: "frozen failingStore = Some 6" by code_simp
  have b3: "map_of (cache failingStore) 2 = None" by code_simp
  have b4: "map_of (retrieved failingStore) 2 = None" by code_simp
  have b5: "objectKeyForN failingStore 2 = Some ''blocks/000000000.json''" by code_simp
  have b6: "faults (remote failingStore) (GetObject ''blocks/000000000.json'') =
      Some (OtherError ''timeout'')"
    by code_simp
  have b7: "OtherError ''timeout'' \<noteq> AwsError ErrCodeNoSuchKey" by simp
  from Ancient_missing_group_is_out_of_bounds [OF a1 a2 a3 a4 a5, of testCodec "''hashes''"] a6 a7
  have r1: "fst (Ancient testCodec ''hashes'' 2 lostGroupStore) = Err errOutOfBounds"
    by simp
  from Ancient_missing_group_is_out_of_bounds [OF b1 a2 b3 b4 b5, of testCodec "''hashes''"] b6 b7
  have r2: "fst (Ancient testCodec ''hashes'' 2 failingStore) = Err (OtherError ''timeout'')"
    by simp
  from a1 a2 a3 a4 a5 a6 a7 r1 b1 b3 b4 b5 b6 b7 r2 show ?thesis
    by blast
qed

subsection \<open>Truncating eleven records to five\<close>

lemma truncate_run:
  "(case appendAll [0, 1, 2, 3, 4, 5, 6, 7, 8, 9, 10] (emptyStore 4) of (r0, f0) \<Rightarrow>
      (r0,
       case TruncateAncients 5 f0 of (r1, f1) \<Rightarrow>
         (r1, frozen f1, map (\<lambda>kind. fst (Ancient testCodec kind 4 f1)) allKinds,
          case Sync f1 of (r2, f2) \<Rightarrow>
            (r2, objects (remote f2),
             filter (\<lambda>(k, b). isGroupKey k \<and> keyLe (awsKeyBlock 4) k) (objects (remote f2)))))) =
   (Ok (),
    Ok (), Some 5,
    [Ok (Some (replicate 31 0 @ [5])), Ok (Some [4]), Ok (Some [7]), Ok (Some []), Ok (Some [])],
    Ok (),
    [(''index-marker'', Raw ''5''),
     (''blocks/000000000.json'', Json (map testObject [0, 1, 2, 3])),
     (''blocks/000000004.json'', Json [testObject 4])],
    [(''blocks/000000004.json'', Json [testObject 4])])"
  by code_simp

lemma sync_truncate_run:
  "(case Sync elevenStore of (r0, f0) \<Rightarrow>
      (r0, map fst (objects (remote f0)),
       case TruncateAncients 5 f0 of (r1, f1) \<Rightarrow>
         (r1, frozen f1, map (\<lambda>kind. fst (Ancient testCodec kind 4 f1)) allKinds,
          case Sync f1 of (r2, f2) \<Rightarrow>
            (r2, objects (remote f2),
             filter (\<lambda>(k, b). isGroupKey k \<and> keyLe (awsKeyBlock 4) k) (objects (remote f2)))))) =
   (Ok (), 
    [''blocks/000000000.json'', ''blocks/000000004.json'', ''blocks/000000008.json'', ''index-marker''],
    Ok (), Some 5,
    [Ok (Some (replicate 31 0 @ [5])), Ok (Some [4]), Ok (Some [7]), Ok (Some []), Ok (Some [])],
    Ok (),
    [(''blocks/000000000.json'', Json (map testObject [0, 1, 2, 3])),
     (''index-marker'', Raw ''5''),
     (''blocks/000000004.json'', Json [testObject 4])],
    [(''blocks/000000004.json'', Json [testObject 4])])"
  by code_simp

lemma truncated_facts:
  "fst (appendAll [0, 1, 2, 3, 4, 5, 6, 7, 8, 9, 10] (emptyStore 4)) = Ok () \<and>
   fst (TruncateAncients 5 elevenStore) = Ok () \<and>
   frozen truncatedStore = Some 5 \<and>
   map (\<lambda>kind. fst (Ancient testCodec kind 4 truncatedStore)) allKinds =
     [Ok (Some (replicate 31 0 @ [5])), Ok (Some [4]), Ok (Some [7]), Ok (Some []), Ok (Some [])] \<and>
   fst (Sync truncatedStore) = Ok () \<and>
   objects (remote (snd (Sync truncatedStore))) =
     [(''index-marker'', Raw ''5''),
      (''blocks/000000000.json'', Json (map testObject [0, 1, 2, 3])),
      (''blocks/000000004.json'', Json [testObject 4])] \<and>
   filter (\<lambda>(k, b). isGroupKey k \<and> keyLe (awsKeyBlock 4) k) (objects (remote (snd (Sync truncatedStore)))) =
     [(''blocks/000000004.json'', Json [testObject 4])]"
proof -
  obtain r0 f0 where a: "appendAll [0, 1, 2, 3, 4, 5, 6, 7, 8, 9, 10] (emptyStore 4) = (r0, f0)"
    by (cases "appendAll [0, 1, 2, 3, 4, 5, 6, 7, 8, 9, 10] (emptyStore 4)")
  obtain r1 f1 where b: "TruncateAncients 5 f0 = (r1, f1)"
    by (cases "TruncateAncients 5 f0")
  obtain r2 f2 where c: "Sync f1 = (r2, f2)"
    by (cases "Sync f1")
  have e: "elevenStore = f0"
    by (simp only: elevenStore_def a snd_conv)
  have t: "truncatedStore = f1"
    by (simp only: truncatedStore_def e b snd_conv)
  from truncate_run [unfolded a b c prod.case prod.inject] show ?thesis
    unfolding e t a b c fst_conv snd_conv .
qed

lemma synced_facts:
  "fst (Sync elevenStore) = Ok () \<and>
   map fst (objects (remote syncedStore)) =
     [''blocks/000000000.json'', ''blocks/000000004.json'', ''blocks/000000008.json'', ''index-marker''] \<and>
   fst (TruncateAncients 5 syncedStore) = Ok () \<and>
   frozen syncedTruncatedStore = Some 5 \<and>
   map (\<lambda>kind. fst (Ancient testCodec kind 4 syncedTruncatedStore)) allKinds =
     [Ok (Some (replicate 31 0 @ [5])), Ok (Some [4]), Ok (Some [7]), Ok (Some []), Ok (Some [])] \<and>
   fst (Sync syncedTruncatedStore) = Ok () \<and>
   objects (remote (snd (Sync syncedTruncatedStore))) =
     [(''blocks/000000000.json'', Json (map testObject [0, 1, 2, 3])),
      (''index-marker'', Raw ''5''),
      (''blocks/000000004.json'', Json [testObject 4])] \<and>
   filter (\<lambda>(k, b). isGroupKey k \<and> keyLe (awsKeyBlock 4) k) (objects (remote (snd (Sync syncedTruncatedStore)))) =
     [(''blocks/000000004.json'', Json [testObject 4])]"
proof -
  obtain r0 f0 where a: "Sync elevenStore = (r0, f0)"
    by (cases "Sync elevenStore")
  obtain r1 f1 where b: "TruncateAncients 5 f0 = (r1, f1)"
    by (cases "TruncateAncients 5 f0")
  obtain r2 f2 where c: "Sync f1 = (r2, f2)"
    by (cases "Sync f1")
  have e: "syncedStore = f0"
    by (simp only: syncedStore_def a snd_conv)
  have t: "syncedTruncatedStore = f1"
    by (simp only: syncedTruncatedStore_def e b snd_conv)
  from sync_truncate_run [unfolded a b c prod.case prod.inject] show ?thesis
    unfolding e t a b c fst_conv snd_conv .
qed


text \<open>
  C4. Records 0 to 10 are appended with group size 4 and the store is truncated to 5,
  either at once (the records are still cached) or after a sync (the records are in
  remote groups). In both runs the truncation succeeds, the frozen count is 5, record 4
  is read back as it was appended for every kind, every number \<open>n \<ge> 5\<close> reads as not
  present, and after the next sync the only group object whose key is at or after the key
  of number 4 holds record 4 alone.
\<close>

theorem TruncateAncients_boundary:
  "5 \<le> n \<Longrightarrow>
   fst (appendAll [0, 1, 2, 3, 4, 5, 6, 7, 8, 9, 10] (emptyStore 4)) = Ok () \<and>
   fst (TruncateAncients 5 elevenStore) = Ok () \<and>
   frozen truncatedStore = Some 5 \<and>
   map (\<lambda>kind. fst (Ancient testCodec kind 4 truncatedStore)) allKinds =
     [Ok (Some (replicate 31 0 @ [5])), Ok (Some [4]), Ok (Some [7]), Ok (Some []), Ok (Some [])] \<and>
   Ancient testCodec kind n truncatedStore = (Ok None, truncatedStore) \<and>
   fst (Sync truncatedStore) = Ok () \<and>
   objects (remote (snd (Sync truncatedStore))) =
     [(''index-marker'', Raw ''5''),
      (''blocks/000000000.json'', Json (map testObject [0, 1, 2, 3])),
      (''blocks/000000004.json'', Json [testObject 4])] \<and>
   filter (\<lambda>(k, b). isGroupKey k \<and> keyLe (awsKeyBlock 4) k)
       (objects (remote (snd (Sync truncatedStore)))) =
     [(''blocks/000000004.json'', Json [testObject 4])] \<and>
   fst (Sync elevenStore) = Ok () \<and>
   map fst (objects (remote syncedStore)) =
     [''blocks/000000000.json'', ''blocks/000000004.json'', ''blocks/000000008.json'',
      ''index-marker''] \<and>
   fst (TruncateAncients 5 syncedStore) = Ok () \<and>
   frozen syncedTruncatedStore = Some 5 \<and>
   map (\<lambda>kind. fst (Ancient testCodec kind 4 syncedTruncatedStore)) allKinds =
     [Ok (Some (replicate 31 0 @ [5])), Ok (Some [4]), Ok (Some [7]), Ok (Some []), Ok (Some [])] \<and>
   Ancient testCodec kind n syncedTruncatedStore = (Ok None, syncedTruncatedStore) \<and>
   fst (Sync syncedTruncatedStore) = Ok () \<and>
   objects (remote (snd (Sync syncedTruncatedStore))) =
     [(''blocks/000000000.json'', Json (map testObject [0, 1, 2, 3])),
      (''index-marker'', Raw ''5''),
      (''blocks/000000004.json'', Json [testObject 4])] \<and>
   filter (\<lambda>(k, b). isGroupKey k \<and> keyLe (awsKeyBlock 4) k)
       (objects (remote (snd (Sync syncedTruncatedStore)))) =
     [(''blocks/000000004.json'', Json [testObject 4])] \<and>
   numberOf (testObject 4) = Some 4"
proof -
  assume n: "5 \<le> n"
  from truncated_facts have fa: "frozen truncatedStore = Some 5"
    by blast
  from synced_facts have fb: "frozen syncedTruncatedStore = Some 5"
    by blast
  from n fa have ra: "Ancient testCodec kind n truncatedStore = (Ok None, truncatedStore)"
    by (simp add: Ancient_def)
  from n fb have rb:
    "Ancient testCodec kind n syncedTruncatedStore = (Ok None, syncedTruncatedStore)"
    by (simp add: Ancient_def)
  have num: "numberOf (testObject 4) = Some 4"
    by code_simp
  from truncated_facts synced_facts ra rb num show ?thesis
    by blast
qed

theorem TruncateAncients_boundary_witness:
  "(5 :: uint64) \<le> 7 \<and>
   frozen truncatedStore = Some 5 \<and>
   Ancient testCodec ''bodies'' 7 truncatedStore = (Ok None, truncatedStore) \<and>
   frozen syncedTruncatedStore = Some 5 \<and>
   Ancient testCodec ''bodies'' 7 syncedTruncatedStore = (Ok None, syncedTruncatedStore)"
proof -
  have le: "(5 :: uint64) \<le> 7"
    by simp
  from TruncateAncients_boundary [OF le, of "''bodies''"] le show ?thesis
    by blast
qed

subsection \<open>Syncing twice\<close>

text \<open>
  What \<open>pushCache\<close> does to the cache: the numbers it retains are those after the last
  number that ends a group, and the last object it uploads is the group of these numbers.
\<close>

lemma sliceIndexOf_neg: "sliceIndexOf sl n < 0 \<longleftrightarrow> n \<notin> set sl"
  by (induction sl) auto

lemma pushCache_splice_map_of:
  "map_of (pushCache_splice ns rm c) n = (if n \<in> set ns \<and> n \<notin> set rm then None else map_of c n)"
  by (induction ns arbitrary: c) (auto simp: sliceIndexOf_neg delete_conv')

lemma pushCache_splice_id: "set ns \<subseteq> set rm \<Longrightarrow> pushCache_splice ns rm c = c"
  by (induction ns arbitrary: c) (auto simp: sliceIndexOf_neg)

lemma pushCache_loop_open_group:
  "ns \<noteq> [] \<Longrightarrow> \<forall>n\<in>set ns. (n + 1) mod objectGroupSize f \<noteq> 0 \<Longrightarrow>
   pushCache_loop f ns (s, u, rm) =
     ([], u @ [(awsKeyBlock ((last ns div objectGroupSize f) * objectGroupSize f),
                Json (s @ map (cacheLookup f) ns))], rm @ ns)"
proof (induction ns arbitrary: s u rm)
  case Nil
  then show ?case by simp
next
  case (Cons n ns)
  show ?case
  proof (cases "ns = []")
    case True
    with Cons.prems show ?thesis by (simp add: Let_def)
  next
    case False
    with Cons.prems Cons.IH [OF False, of "s @ [cacheLookup f n]" u "rm @ [n]"]
    show ?thesis by (simp add: Let_def)
  qed
qed

lemma pushCache_loop_result:
  "ns \<noteq> [] \<Longrightarrow> s = map (cacheLookup f) rm \<Longrightarrow>
   \<forall>n\<in>set rm. (n + 1) mod objectGroupSize f \<noteq> 0 \<Longrightarrow>
   pushCache_loop f ns (s, u, rm) = (s', u', rm') \<Longrightarrow>
   (\<forall>n\<in>set rm'. (n + 1) mod objectGroupSize f \<noteq> 0) \<and>
   (rm' \<noteq> [] \<longrightarrow>
      (\<exists>u0. u' = u0 @ [(awsKeyBlock ((last rm' div objectGroupSize f) * objectGroupSize f),
                         Json (map (cacheLookup f) rm'))]))"
proof (induction ns arbitrary: s u rm)
  case Nil
  then show ?case by simp
next
  case (Cons n ns)
  show ?case
  proof (cases "ns = []")
    case True
    show ?thesis
    proof (cases "(n + 1) mod objectGroupSize f = 0")
      case e: True
      with Cons.prems True have "rm' = []" by (auto simp: Let_def)
      then show ?thesis by simp
    next
      case e: False
      with Cons.prems True have
        "rm' = rm @ [n]"
        "u' = u @ [(awsKeyBlock ((n div objectGroupSize f) * objectGroupSize f),
                    Json (map (cacheLookup f) (rm @ [n])))]"
        by (auto simp: Let_def)
      with Cons.prems(3) e show ?thesis by simp
    qed
  next
    case False
    show ?thesis
    proof (cases "(n + 1) mod objectGroupSize f = 0")
      case True
      with Cons.prems False have
        "pushCache_loop f ns ([], u @ [(awsKeyBlock ((n div objectGroupSize f) * objectGroupSize f),
            Json (s @ [cacheLookup f n]))], []) = (s', u', rm')"
        by (simp add: Let_def)
      from Cons.IH [OF False _ _ this] show ?thesis by simp
    next
      case notend: False
      with Cons.prems False have
        "pushCache_loop f ns (s @ [cacheLookup f n], u, rm @ [n]) = (s', u', rm')"
        by (simp add: Let_def)
      from Cons.IH [OF False _ _ this] Cons.prems(2,3) notend show ?thesis by simp
    qed
  qed
qed

lemma s3uploadAll_ok:
  "s3uploadAll us failed r = (None, r') \<Longrightarrow>
   \<not> failed \<and> faults r' = faults r \<and>
   calls r' = calls r @ map (\<lambda>u. PutObject (fst u)) us \<and>
   (\<forall>u\<in>set us. faults r (PutObject (fst u)) = None) \<and>
   (us = [] \<longrightarrow> objects r' = objects r) \<and>
   (us \<noteq> [] \<longrightarrow> map_of (objects r') (fst (last us)) = Some (snd (last us)))"
proof (induction us arbitrary: r failed)
  case Nil
  then show ?case by (auto split: if_splits)
next
  case (Cons x us)
  obtain k b where x: "x = (k, b)" by (cases x)
  show ?case
  proof (cases "faults r (PutObject k)")
    case None
    with Cons.prems x have
      rec: "s3uploadAll us failed (r\<lparr>objects := AList.update k b (objects r),
                                     calls := calls r @ [PutObject k]\<rparr>) = (None, r')"
      by (simp add: s3put_def)
    from Cons.IH [OF rec] None x show ?thesis
      by (cases "us = []") (auto simp: update_conv')
  next
    case (Some e)
    with Cons.prems x have
      rec: "s3uploadAll us True (r\<lparr>calls := calls r @ [PutObject k]\<rparr>) = (None, r')"
      by (simp add: s3put_def)
    from Cons.IH [OF rec] show ?thesis by simp
  qed
qed

lemma awsKeyBlock_not_marker: "awsKeyBlock n \<noteq> ''index-marker''"
  by (simp add: awsKeyBlock_def Let_def)

lemma setIndexMarker_ok:
  "setIndexMarker n f = (None, f') \<Longrightarrow>
   faults (remote f) (PutObject ''index-marker'') = None \<and>
   f' = f\<lparr>remote := (remote f)\<lparr>
          objects := AList.update ''index-marker'' (Raw (FormatUint n)) (objects (remote f)),
          calls := calls (remote f) @ [PutObject ''index-marker'']\<rparr>\<rparr>"
  by (auto simp: setIndexMarker_def s3put_def split: option.splits)

lemma setIndexMarker_again:
  "faults (remote f) (PutObject ''index-marker'') = None \<Longrightarrow>
   map_of (objects (remote f)) ''index-marker'' = Some (Raw (FormatUint n)) \<Longrightarrow>
   setIndexMarker n f =
     (None, f\<lparr>remote := (remote f)\<lparr>calls := calls (remote f) @ [PutObject ''index-marker'']\<rparr>\<rparr>)"
  by (simp add: setIndexMarker_def s3put_def update_triv)

lemma cacheBeginsAtMod_cong:
  "cacheS f' = cacheS f \<Longrightarrow> objectGroupSize f' = objectGroupSize f \<Longrightarrow>
   cacheBeginsAtMod f' = cacheBeginsAtMod f"
  by (simp add: cacheBeginsAtMod_def split: list.splits)

lemma pushCache_ok:
  assumes "pushCache f = (Ok (), f1)" and "cacheS f \<noteq> []"
  shows "\<exists>s u rm r.
     pushCache_loop f (cacheS f) ([], [], []) = (s, u, rm) \<and>
     s3uploadAll u False (remote f) = (None, r) \<and>
     f1 = f\<lparr>remote := r, cache := pushCache_splice (cacheS f) rm (cache f),
            cacheS := rm, retrieved := []\<rparr> \<and>
     cacheBeginsAtMod f1 = None \<and> rm \<noteq> []"
proof -
  obtain s u rm where l: "pushCache_loop f (cacheS f) ([], [], []) = (s, u, rm)"
    by (cases "pushCache_loop f (cacheS f) ([], [], [])") auto
  obtain e r where up: "s3uploadAll u False (remote f) = (e, r)"
    by (cases "s3uploadAll u False (remote f)")
  from assms l up have e: "e = None"
    by (auto simp: pushCache_def split: option.splits)
  from assms l up e have
    f1: "f1 = f\<lparr>remote := r, cache := pushCache_splice (cacheS f) rm (cache f),
               cacheS := rm, retrieved := []\<rparr>"
    and c: "cacheBeginsAtMod (f\<lparr>remote := r, cache := pushCache_splice (cacheS f) rm (cache f),
               cacheS := rm\<rparr>) = None"
    by (auto simp: pushCache_def Let_def split: option.splits)
  have "cacheBeginsAtMod f1 = cacheBeginsAtMod (f\<lparr>remote := r,
      cache := pushCache_splice (cacheS f) rm (cache f), cacheS := rm\<rparr>)"
    by (rule cacheBeginsAtMod_cong) (simp_all add: f1)
  with c have c1: "cacheBeginsAtMod f1 = None"
    by simp
  from c have "rm \<noteq> []"
    by (auto simp: cacheBeginsAtMod_def)
  with l up e f1 c1 show ?thesis by blast
qed

lemma pushCache_again:
  assumes ok: "pushCache f = (Ok (), f1)" and ne: "cacheS f \<noteq> []"
    and same: "cache f2 = cache f1" "cacheS f2 = cacheS f1"
      "objectGroupSize f2 = objectGroupSize f1" "retrieved f2 = retrieved f1"
      "faults (remote f2) = faults (remote f1)"
    and objs: "\<And>k. k \<noteq> ''index-marker'' \<Longrightarrow>
      map_of (objects (remote f2)) k = map_of (objects (remote f1)) k"
  shows "pushCache f2 =
     (Ok (), f2\<lparr>remote := (remote f2)\<lparr>calls := calls (remote f2) @
        [PutObject (awsKeyBlock ((last (cacheS f2) div objectGroupSize f2) * objectGroupSize f2))]\<rparr>\<rparr>)"
proof -
  from pushCache_ok [OF ok ne] obtain s u rm r where
    l: "pushCache_loop f (cacheS f) ([], [], []) = (s, u, rm)" and
    up: "s3uploadAll u False (remote f) = (None, r)" and
    f1: "f1 = f\<lparr>remote := r, cache := pushCache_splice (cacheS f) rm (cache f),
               cacheS := rm, retrieved := []\<rparr>" and
    c1: "cacheBeginsAtMod f1 = None" and rm: "rm \<noteq> []"
    by blast
  let ?g = "objectGroupSize f"
  let ?k = "awsKeyBlock ((last rm div ?g) * ?g)"
  let ?b = "Json (map (cacheLookup f) rm)"
  from pushCache_loop_result [OF ne _ _ l] rm have
    open': "\<forall>n\<in>set rm. (n + 1) mod ?g \<noteq> 0" and
    "\<exists>u0. u = u0 @ [(?k, ?b)]"
    by simp_all
  then obtain u0 where u: "u = u0 @ [(?k, ?b)]" by blast
  from s3uploadAll_ok [OF up] u have
    fr: "faults r = faults (remote f)" and
    nf: "faults (remote f) (PutObject ?k) = None" and
    at: "map_of (objects r) ?k = Some ?b"
    by simp_all
  have g2: "objectGroupSize f2 = ?g" and s2: "cacheS f2 = rm" and
    r2: "retrieved f2 = []" and
    c2: "cache f2 = pushCache_splice (cacheS f) rm (cache f)" and
    fa2: "faults (remote f2) = faults (remote f)"
    using same fr by (simp_all add: f1)
  have look: "map (cacheLookup f2) rm = map (cacheLookup f) rm"
    by (simp add: cacheLookup_def c2 pushCache_splice_map_of)
  from pushCache_loop_open_group [OF rm, of f2 "[]" "[]" "[]"] open' g2 look
  have l2: "pushCache_loop f2 (cacheS f2) ([], [], []) = ([], [(?k, ?b)], rm)"
    by (simp add: s2)
  from objs [OF awsKeyBlock_not_marker, of "(last rm div ?g) * ?g"] at
  have at2: "map_of (objects (remote f2)) ?k = Some ?b"
    by (simp add: f1)
  have up2: "s3uploadAll [(?k, ?b)] False (remote f2) =
      (None, (remote f2)\<lparr>calls := calls (remote f2) @ [PutObject ?k]\<rparr>)"
    using nf fa2 at2 by (simp add: s3put_def update_triv)
  have cm2: "cacheBeginsAtMod f2 = None"
    using c1 cacheBeginsAtMod_cong [of f2 f1] same by simp
  have sp: "pushCache_splice (cacheS f2) rm (cache f2) = cache f2"
    by (rule pushCache_splice_id) (simp add: s2)
  have "cacheBeginsAtMod (f2\<lparr>remote := (remote f2)\<lparr>calls := calls (remote f2) @ [PutObject ?k]\<rparr>,
       cache := cache f2, cacheS := rm\<rparr>) = cacheBeginsAtMod f2"
    by (rule cacheBeginsAtMod_cong) (simp_all add: s2)
  with cm2 have cm3: "cacheBeginsAtMod (f2\<lparr>remote := (remote f2)\<lparr>calls := calls (remote f2) @ [PutObject ?k]\<rparr>,
       cache := cache f2, cacheS := rm\<rparr>) = None"
    by simp
  show ?thesis
    using rm l2 up2 cm2 cm3 sp r2
    by (simp add: pushCache_def s2 g2)
qed


text \<open>
  C5, as the code has it. After a successful \<open>Sync\<close>, a second \<open>Sync\<close> succeeds and
  leaves the store as it is but for the log of remote calls: the frozen count, the marker
  and every object of the bucket are unchanged. It is not free of uploads: when the write
  cache is not empty it puts the retained trailing group again, under the same key and
  with the same content, and writes the marker again with the same value.
\<close>

theorem Sync_twice_reuploads_tail:
  assumes "Sync f = (Ok (), f1)"
  shows "Sync f1 =
     (Ok (), f1\<lparr>remote := (remote f1)\<lparr>calls := calls (remote f1) @
        (if cache f1 = [] then []
         else if cacheS f1 = [] then [PutObject ''index-marker'']
         else [PutObject (awsKeyBlock ((last (cacheS f1) div objectGroupSize f1) * objectGroupSize f1)),
               PutObject ''index-marker''])\<rparr>\<rparr>)"
proof (cases "cache f = []")
  case True
  with assms have "f1 = f" by (simp add: Sync_def)
  with True show ?thesis by (simp add: Sync_def)
next
  case False
  obtain res fp where p0: "pushCache f = (res, fp)"
    by (cases "pushCache f")
  with assms False have res: "res = Ok ()"
    by (cases res) (auto simp: Sync_def)
  with p0 have p: "pushCache f = (Ok (), fp)" by simp
  from assms False p obtain fz where fz: "frozen fp = Some fz"
    by (cases "frozen fp") (auto simp: Sync_def)
  from assms False p fz have m: "setIndexMarker fz fp = (None, f1)"
    by (cases "setIndexMarker fz fp") (auto simp: Sync_def split: option.splits)
  from setIndexMarker_ok [OF m] have
    nfm: "faults (remote fp) (PutObject ''index-marker'') = None" and
    f1: "f1 = fp\<lparr>remote := (remote fp)\<lparr>
          objects := AList.update ''index-marker'' (Raw (FormatUint fz)) (objects (remote fp)),
          calls := calls (remote fp) @ [PutObject ''index-marker'']\<rparr>\<rparr>"
    by simp_all
  have same: "cache f1 = cache fp" "cacheS f1 = cacheS fp"
    "objectGroupSize f1 = objectGroupSize fp" "retrieved f1 = retrieved fp"
    "faults (remote f1) = faults (remote fp)"
    by (simp_all add: f1)
  have fz1: "frozen f1 = Some fz"
    by (simp add: f1 fz)
  have mk: "map_of (objects (remote f1)) ''index-marker'' = Some (Raw (FormatUint fz))"
    by (simp add: f1 update_conv')
  have objs: "\<And>k. k \<noteq> ''index-marker'' \<Longrightarrow>
      map_of (objects (remote f1)) k = map_of (objects (remote fp)) k"
    by (simp add: f1 update_conv')
  show ?thesis
  proof (cases "cache f1 = []")
    case True
    then show ?thesis by (simp add: Sync_def)
  next
    case c1: False
    show ?thesis
    proof (cases "cacheS f = []")
      case True
      with p have "fp = f" by (simp add: pushCache_def)
      with True same have s1: "cacheS f1 = []" by simp
      then have p1: "pushCache f1 = (Ok (), f1)" by (simp add: pushCache_def)
      from setIndexMarker_again [of f1 fz] nfm same mk have
        "setIndexMarker fz f1 =
          (None, f1\<lparr>remote := (remote f1)\<lparr>calls := calls (remote f1) @ [PutObject ''index-marker'']\<rparr>\<rparr>)"
        by simp
      with c1 s1 p1 fz1 show ?thesis by (simp add: Sync_def)
    next
      case ne: False
      from pushCache_ok [OF p ne] have s1: "cacheS f1 \<noteq> []"
        by (auto simp: same)
      let ?k = "awsKeyBlock ((last (cacheS f1) div objectGroupSize f1) * objectGroupSize f1)"
      let ?f2 = "f1\<lparr>remote := (remote f1)\<lparr>calls := calls (remote f1) @ [PutObject ?k]\<rparr>\<rparr>"
      from pushCache_again [OF p ne same objs] have p1: "pushCache f1 = (Ok (), ?f2)"
        by simp
      from setIndexMarker_again [of ?f2 fz] nfm same mk have
        "setIndexMarker fz ?f2 =
          (None, ?f2\<lparr>remote := (remote ?f2)\<lparr>calls := calls (remote ?f2) @ [PutObject ''index-marker'']\<rparr>\<rparr>)"
        by simp
      with c1 s1 p1 fz1 show ?thesis by (simp add: Sync_def)
    qed
  qed
qed

theorem Sync_twice_reuploads_tail_witness:
  "Sync oneStore = (Ok (), snd (Sync oneStore)) \<and>
   cache (snd (Sync oneStore)) \<noteq> [] \<and> cacheS (snd (Sync oneStore)) = [0] \<and>
   Sync (snd (Sync oneStore)) =
     (Ok (), (snd (Sync oneStore))\<lparr>remote := (remote (snd (Sync oneStore)))\<lparr>calls :=
        calls (remote (snd (Sync oneStore))) @
          [PutObject ''blocks/000000000.json'', PutObject ''index-marker'']\<rparr>\<rparr>)"
proof -
  have "fst (Sync oneStore) = Ok ()" by code_simp
  then have h: "Sync oneStore = (Ok (), snd (Sync oneStore))"
    by (metis prod.collapse)
  have c: "cache (snd (Sync oneStore)) \<noteq> []" by code_simp
  have s: "cacheS (snd (Sync oneStore)) = [0]" by code_simp
  have g: "objectGroupSize (snd (Sync oneStore)) = 4" by code_simp
  have k: "awsKeyBlock ((0 div 4) * 4) = ''blocks/000000000.json''" by code_simp
  from Sync_twice_reuploads_tail [OF h] c s g k h show ?thesis
    by simp
qed

text \<open>
  C5, as stated, fails: one record is appended and synced; the second \<open>Sync\<close> uploads the
  group \<open>blocks/000000000.json\<close> a second time.
\<close>

theorem Sync_twice_uploads_again:
  "fst (Sync oneStore) = Ok () \<and>
   fst (Sync (snd (Sync oneStore))) = Ok () \<and>
   calls (remote (snd (Sync oneStore))) =
     [PutObject ''blocks/000000000.json'', PutObject ''index-marker''] \<and>
   calls (remote (snd (Sync (snd (Sync oneStore))))) =
     [PutObject ''blocks/000000000.json'', PutObject ''index-marker'',
      PutObject ''blocks/000000000.json'', PutObject ''index-marker'']"
  by code_simp


subsection \<open>The read-through cache\<close>











subsection \<open>The alignment of the write cache\<close>

text \<open>
  What the checks of the code establish: after every call that returns without error,
  the first number of \<open>f.cacheS\<close>, if there is one, is a multiple of the group size
  (for \<open>Sync\<close>, which returns at once on an empty cache map, provided it was so before).
\<close>

lemma Truncate_keep_cache_empty:
  "Truncate_keep ts items f = (p, f') \<Longrightarrow> (cache f = [] \<longleftrightarrow> cacheS f = []) \<Longrightarrow>
   (cache f' = [] \<longleftrightarrow> cacheS f' = []) \<and> objectGroupSize f' = objectGroupSize f"
proof (induction ts arbitrary: f)
  case Nil
  then show ?case by simp
next
  case (Cons t ts)
  show ?case
  proof (cases "numberOf t")
    case None
    with Cons.prems show ?thesis by simp
  next
    case (Some n)
    let ?f = "if n < items then f\<lparr>cache := AList.update n t (cache f), cacheS := cacheS f @ [n]\<rparr>
          else f"
    from Some Cons.prems have k: "Truncate_keep ts items ?f = (p, f')"
      by simp
    from Cons.prems(2) have "cache ?f = [] \<longleftrightarrow> cacheS ?f = []"
      by simp
    from Cons.IH [OF k this] show ?thesis by (simp split: if_splits)
  qed
qed

lemma Truncate_download_cache_empty:
  assumes "Truncate_download items f = (Ok (), f')"
  shows "(cache f' = [] \<longleftrightarrow> cacheS f' = []) \<and> objectGroupSize f' = objectGroupSize f"
proof -
  from assms obtain key where key: "objectKeyForN f items = Some key"
    by (cases "objectKeyForN f items") (auto simp: Truncate_download_def)
  show ?thesis
  proof (cases "items mod objectGroupSize f = 0")
    case True
    with assms key show ?thesis by (auto simp: Truncate_download_def del: mod_0_imp_dvd)
  next
    case False
    obtain d r where g: "s3get key (remote f) = (d, r)"
      by (cases "s3get key (remote f)")
    with assms key False obtain b where d: "d = Inr b"
      by (cases d) (auto simp: Truncate_download_def)
    with assms key False g obtain target where t: "unmarshal b = Inr target"
      by (cases "unmarshal b") (auto simp: Truncate_download_def)
    obtain p fk where k:
      "Truncate_keep target items (f\<lparr>remote := r, cache := [], cacheS := []\<rparr>) = (p, fk)"
      by (cases "Truncate_keep target items (f\<lparr>remote := r, cache := [], cacheS := []\<rparr>)")
    with assms key False g d t have f': "f' = fk\<lparr>cacheS := sort (cacheS fk)\<rparr>"
      by (cases p) (auto simp: Truncate_download_def)
    from Truncate_keep_cache_empty [OF k] have
      "(cache fk = [] \<longleftrightarrow> cacheS fk = []) \<and> objectGroupSize fk = objectGroupSize f"
      by simp
    moreover have "sort (cacheS fk) = [] \<longleftrightarrow> cacheS fk = []"
      by (metis length_0_conv length_sort)
    ultimately show ?thesis by (simp add: f')
  qed
qed

lemma first_cached_number_aligned:
  "(AppendAncient c number hash hdr bdy receipts td f = (Ok (), f') \<longrightarrow>
      cacheBeginsAtMod f' = None) \<and>
   (Sync f = (Ok (), f') \<and> (cacheS f = [] \<or> cacheBeginsAtMod f = None) \<longrightarrow>
      cacheS f' = [] \<or> cacheBeginsAtMod f' = None) \<and>
   (TruncateAncients items f = (Ok (), f') \<longrightarrow>
      cacheS f' = [] \<or> cacheBeginsAtMod f' = None)"
proof -
  have append: "cacheBeginsAtMod f' = None"
    if a: "AppendAncient c number hash hdr bdy receipts td f = (Ok (), f')"
  proof -
    from a obtain o' where o: "NewAncientObjectS3 c hash hdr bdy receipts td = Inr o'"
      by (cases "NewAncientObjectS3 c hash hdr bdy receipts td") (auto simp: AppendAncient_def)
    let ?f1 = "f\<lparr>cache := AList.update number o' (cache f), cacheS := cacheS f @ [number]\<rparr>"
    from a o have c1: "cacheBeginsAtMod ?f1 = None"
      by (cases "cacheBeginsAtMod ?f1") (auto simp: AppendAncient_def Let_def)
    from a o c1 have "cacheS f' = cacheS ?f1 \<and> objectGroupSize f' = objectGroupSize ?f1"
      by (cases "frozen f") (auto simp: AppendAncient_def Let_def)
    then have "cacheBeginsAtMod f' = cacheBeginsAtMod ?f1"
      by (intro cacheBeginsAtMod_cong) simp_all
    with c1 show ?thesis by simp
  qed
  have sync: "cacheS f' = [] \<or> cacheBeginsAtMod f' = None"
    if s: "Sync f = (Ok (), f')" and inv: "cacheS f = [] \<or> cacheBeginsAtMod f = None"
  proof (cases "cache f = []")
    case True
    with s inv show ?thesis by (simp add: Sync_def)
  next
    case False
    obtain res fp where p0: "pushCache f = (res, fp)"
      by (cases "pushCache f")
    with s False have "res = Ok ()"
      by (cases res) (auto simp: Sync_def)
    with p0 have p: "pushCache f = (Ok (), fp)" by simp
    from s False p obtain fz where fz: "frozen fp = Some fz"
      by (cases "frozen fp") (auto simp: Sync_def)
    from s False p fz have m: "setIndexMarker fz fp = (None, f')"
      by (cases "setIndexMarker fz fp") (auto simp: Sync_def split: option.splits)
    from setIndexMarker_ok [OF m] have
      same: "cacheS f' = cacheS fp" "objectGroupSize f' = objectGroupSize fp"
      by simp_all
    show ?thesis
    proof (cases "cacheS f = []")
      case True
      with p have "fp = f" by (simp add: pushCache_def)
      with True same show ?thesis by simp
    next
      case ne: False
      from pushCache_ok [OF p ne] have "cacheBeginsAtMod fp = None" by blast
      with cacheBeginsAtMod_cong [OF same] show ?thesis by simp
    qed
  qed
  have trunc: "cacheS f' = [] \<or> cacheBeginsAtMod f' = None"
    if t: "TruncateAncients items f = (Ok (), f')"
  proof -
    from t have al: "cacheBeginsAtMod f = None"
      by (cases "cacheBeginsAtMod f") (auto simp: TruncateAncients_def)
    obtain c' cachedAt where l: "Truncate_loop (cacheS f) 0 items (cache f, - 1) = (c', cachedAt)"
      by (cases "Truncate_loop (cacheS f) 0 items (cache f, - 1)")
    show ?thesis
    proof (cases "0 \<le> cachedAt")
      case True
      let ?f1 = "f\<lparr>cache := c', cacheS := take (nat cachedAt) (cacheS f)\<rparr>"
      from t al l True obtain e f2 where
        m: "setIndexMarker items ?f1 = (e, f2)" and f': "f' = f2\<lparr>frozen := Some items\<rparr>"
        by (cases "setIndexMarker items ?f1")
           (auto simp: TruncateAncients_def Let_def split: option.splits)
      from m have "cacheS f2 = cacheS ?f1 \<and> objectGroupSize f2 = objectGroupSize ?f1"
        by (auto simp: setIndexMarker_def s3put_def split: option.splits)
      with f' have same: "cacheS f' = take (nat cachedAt) (cacheS f)"
        "objectGroupSize f' = objectGroupSize f"
        by simp_all
      from al obtain n ns where ns: "cacheS f = n # ns"
        by (cases "cacheS f") (auto simp: cacheBeginsAtMod_def)
      show ?thesis
      proof (cases "nat cachedAt")
        case 0
        with same show ?thesis by simp
      next
        case (Suc k)
        with same ns al show ?thesis
          by (auto simp: cacheBeginsAtMod_def split: if_splits del: mod_0_imp_dvd)
      qed
    next
      case False
      from t al l False have r: "Truncate_remote items (f\<lparr>cache := c'\<rparr>) = (Ok (), f')"
        by (auto simp: TruncateAncients_def Let_def split: option.splits)
      obtain res f1 where d0: "Truncate_download items (f\<lparr>cache := c'\<rparr>) = (res, f1)"
        by (cases "Truncate_download items (f\<lparr>cache := c'\<rparr>)")
      with r have "res = Ok ()"
        by (cases res) (auto simp: Truncate_remote_def)
      with d0 have d: "Truncate_download items (f\<lparr>cache := c'\<rparr>) = (Ok (), f1)" by simp
      from Truncate_download_cache_empty [OF d] have ce: "cache f1 = [] \<longleftrightarrow> cacheS f1 = []"
        by simp
      from r d obtain key where key: "objectKeyForN f1 items = Some key"
        by (cases "objectKeyForN f1 items") (auto simp: Truncate_remote_def)
      obtain e r' where del: "s3deleteFrom key (remote f1) = (e, r')"
        by (cases "s3deleteFrom key (remote f1)")
      with r d key have e: "e = None"
        by (cases e) (auto simp: Truncate_remote_def)
      let ?push = "if cache f1 \<noteq> [] then pushCache (f1\<lparr>remote := r'\<rparr>) else (Ok (), f1\<lparr>remote := r'\<rparr>)"
      obtain res2 f2 where ps: "?push = (res2, f2)"
        by (cases ?push)
      with r d key del e have res2: "res2 = Ok ()"
        by (cases res2) (auto simp: Truncate_remote_def)
      from r d key del e ps res2 obtain e3 f3 where
        m: "setIndexMarker items f2 = (e3, f3)" and f': "f' = f3\<lparr>frozen := Some items\<rparr>"
        by (cases "setIndexMarker items f2") (auto simp: Truncate_remote_def split: option.splits)
      from m have "cacheS f3 = cacheS f2 \<and> objectGroupSize f3 = objectGroupSize f2"
        by (auto simp: setIndexMarker_def s3put_def split: option.splits)
      with f' have same: "cacheS f' = cacheS f2" "objectGroupSize f' = objectGroupSize f2"
        by simp_all
      show ?thesis
      proof (cases "cache f1 = []")
        case True
        with ps have "f2 = f1\<lparr>remote := r'\<rparr>" by simp
        with True ce same show ?thesis by simp
      next
        case False
        with ce have ne: "cacheS (f1\<lparr>remote := r'\<rparr>) \<noteq> []" by simp
        from False ps res2 have "pushCache (f1\<lparr>remote := r'\<rparr>) = (Ok (), f2)" by simp
        from pushCache_ok [OF this ne] have "cacheBeginsAtMod f2 = None" by blast
        with cacheBeginsAtMod_cong [OF same] show ?thesis by simp
      qed
    qed
  qed
  show ?thesis
  proof (intro conjI impI)
    assume "AppendAncient c number hash hdr bdy receipts td f = (Ok (), f')"
    then show "cacheBeginsAtMod f' = None" by (rule append)
  next
    assume h: "Sync f = (Ok (), f') \<and> (cacheS f = [] \<or> cacheBeginsAtMod f = None)"
    from sync [OF conjunct1 [OF h] conjunct2 [OF h]]
    show "cacheS f' = [] \<or> cacheBeginsAtMod f' = None" .
  next
    assume "TruncateAncients items f = (Ok (), f')"
    then show "cacheS f' = [] \<or> cacheBeginsAtMod f' = None" by (rule trunc)
  qed
qed

text \<open>
  C6. The specification: after any sequence of appends, syncs and truncations the smallest cached
  number is a multiple of the group size, and a violation is a fatal fault. The checks of
  the code look at \<open>f.cacheS[0]\<close>, the first cached number, which is the smallest only
  when the numbers were appended in order. As \<open>AppendAncient\<close> accepts numbers out of
  order (see C1), appending 4 and then 1 to the empty store with group size 4 succeeds
  twice and leaves the numbers 4 and 1 cached, the smallest of which is 1; no check fires.
\<close>

theorem AppendAncient_leaves_unaligned_minimum:
  "fst (appendAll [4, 1] (emptyStore 4)) = Ok () \<and>
   cacheS (snd (appendAll [4, 1] (emptyStore 4))) = [4, 1] \<and>
   map fst (cache (snd (appendAll [4, 1] (emptyStore 4)))) = [4, 1] \<and>
   cacheBeginsAtMod (snd (appendAll [4, 1] (emptyStore 4))) = None \<and>
   Min (set (cacheS (snd (appendAll [4, 1] (emptyStore 4))))) mod
     objectGroupSize (snd (appendAll [4, 1] (emptyStore 4))) = 1"
  by code_simp

end
